theory Spec2Isabelle
  imports Main "HOL-Library.Word"
begin

section \<open>Data model of the cycle simulator (src/apps/cyclesim.cpp)\<close>

text \<open>
  The application reads the binary InterOp files of a run folder, keeps the records up to
  a maximum cycle (and, for tile metrics, the per-read entries up to a maximum read) and
  writes the result to an output run folder.  The bounds are C++ \<^verbatim>\<open>unsigned int\<close>s, so
  the keys they are compared with are 32-bit words (a narrower key is promoted before the
  comparison).  The measurements a record carries beside its keys are kept as raw 32-bit
  fields: the code below copies them and never looks at them.
\<close>

type_synonym byte = "8 word"
type_synonym uint = "32 word"

record base_metric =
  lane :: uint
  tile :: uint

record cycle_metric = base_metric +
  cycle :: uint
  cycle_values :: "uint list"

record read_metric =
  read :: uint
  read_values :: "uint list"

record tile_metric = base_metric +
  tile_values :: "uint list"
  read_metrics :: "read_metric list"

text \<open>
  A metric set: the records in file order, the format version and the header metadata
  that the constructor \<^verbatim>\<open>MetricSet(subset, metrics.version(), metrics)\<close> copies from
  the set it is given as third argument.
\<close>

record 'r metric_set =
  metrics :: "'r list"
  version :: byte
  header_extra :: "byte list"

section \<open>The cycle filter of \<^verbatim>\<open>copy_cycle_metrics\<close>\<close>

text \<open>
  The loop over \<^verbatim>\<open>metrics.metrics()\<close>: a record whose cycle is above
  \<^verbatim>\<open>max_cycle\<close> is passed over (\<^verbatim>\<open>continue\<close>), any other is pushed to the back of
  \<^verbatim>\<open>subset\<close> (the argument \<open>kept\<close>).
\<close>

fun cycle_subset :: "uint \<Rightarrow> cycle_metric list \<Rightarrow> cycle_metric list \<Rightarrow> cycle_metric list" where
  "cycle_subset max_cycle [] kept = kept"
| "cycle_subset max_cycle (m # ms) kept =
     (if cycle m > max_cycle then cycle_subset max_cycle ms kept
      else cycle_subset max_cycle ms (kept @ [m]))"

text \<open>\<^verbatim>\<open>MetricSet metricsOut(subset, metrics.version(), metrics)\<close>.\<close>

definition filter_by_cycle :: "cycle_metric metric_set \<Rightarrow> uint \<Rightarrow> cycle_metric metric_set" where
  "filter_by_cycle ms max_cycle =
     \<lparr>metrics = cycle_subset max_cycle (metrics ms) [],
      version = version ms,
      header_extra = header_extra ms\<rparr>"

section \<open>The read filter of \<^verbatim>\<open>copy_tile_metrics\<close>\<close>

text \<open>
  The inner loop collects in \<^verbatim>\<open>reads\<close> the per-read entries of one tile whose read
  number is not above \<^verbatim>\<open>max_read\<close>; the outer loop pushes
  \<^verbatim>\<open>tile_metric(*beg, reads)\<close>, the tile with its read entries replaced, for every
  tile.
\<close>

fun read_subset :: "uint \<Rightarrow> read_metric list \<Rightarrow> read_metric list \<Rightarrow> read_metric list" where
  "read_subset max_read [] reads = reads"
| "read_subset max_read (r # rs) reads =
     (if read r > max_read then read_subset max_read rs reads
      else read_subset max_read rs (reads @ [r]))"

fun tile_subset :: "uint \<Rightarrow> tile_metric list \<Rightarrow> tile_metric list \<Rightarrow> tile_metric list" where
  "tile_subset max_read [] kept = kept"
| "tile_subset max_read (t # ts) kept =
     tile_subset max_read ts
       (kept @ [t\<lparr>read_metrics := read_subset max_read (read_metrics t) []\<rparr>])"

definition filter_by_read :: "tile_metric metric_set \<Rightarrow> uint \<Rightarrow> tile_metric metric_set" where
  "filter_by_read ms max_read =
     \<lparr>metrics = tile_subset max_read (metrics ms) [],
      version = version ms,
      header_extra = header_extra ms\<rparr>"

section \<open>Reading, copying and the orchestration \<^verbatim>\<open>write_interops\<close>\<close>

text \<open>The exit codes of the application (\<^verbatim>\<open>enum exit_codes\<close>, numbered from 0).\<close>

definition SUCCESS :: int where "SUCCESS = 0"
definition INVALID_ARGUMENTS :: int where "INVALID_ARGUMENTS = 1"
definition NO_INTEROPS_FOUND :: int where "NO_INTEROPS_FOUND = 2"
definition BAD_FORMAT :: int where "BAD_FORMAT = 3"
definition UNEXPECTED_EXCEPTION :: int where "UNEXPECTED_EXCEPTION = 4"
definition EMPTY_INTEROP :: int where "EMPTY_INTEROP = 5"

text \<open>
  The metric sets the application names (the includes of cyclesim.cpp and the list in
  the comment of \<^verbatim>\<open>write_interops\<close>), and the exceptions it distinguishes:
  the three of the \<^verbatim>\<open>io\<close> namespace and any other \<^verbatim>\<open>std::exception\<close>.
\<close>

datatype category =
  tile_metrics | error_metrics | corrected_intensity_metrics | extraction_metrics
  | image_metrics | q_metrics | index_metrics

datatype exn =
  file_not_found_exception | bad_format_exception | incomplete_file_exception | std_exception

text \<open>
  \<^verbatim>\<open>io::read_interop\<close> and \<^verbatim>\<open>io::write_interop\<close> belong to the library, not to the
  application, so they are parameters of the model.  The input run folder gives, for each
  metric set, what \<^verbatim>\<open>io::read_interop(filename, metrics)\<close> does on a freshly constructed
  set: the exception it throws, if any, and the contents of \<^verbatim>\<open>metrics\<close> when it
  returns or throws.  The writer gives the exception, if any, that
  \<^verbatim>\<open>io::write_interop(output, metrics)\<close> throws for a set.
\<close>

record run_folder =
  tile_interop :: "exn option \<times> tile_metric metric_set"
  cycle_interop :: "category \<Rightarrow> exn option \<times> cycle_metric metric_set"

datatype interop_file =
  TileFile "tile_metric metric_set" | CycleFile "cycle_metric metric_set"

type_synonym writer = "category \<Rightarrow> interop_file \<Rightarrow> exn option"

text \<open>
  The effects on the two folders are kept as a log: the metric sets that were read, in
  order, and the files written to the output folder, in order.  Each completed
  \<^verbatim>\<open>write_interop\<close> replaces the file of its metric set, so the contents of a file at
  the end are the last entry of the log for that metric set.
\<close>

record io_log =
  reads :: "category list"
  writes :: "(category \<times> interop_file) list"

definition start :: io_log where
  "start = \<lparr>reads = [], writes = []\<rparr>"

definition final_file :: "io_log \<Rightarrow> category \<Rightarrow> interop_file option" where
  "final_file s c = map_of (rev (writes s)) c"

text \<open>
  A function of the application either returns an exit code or is left by an exception it
  does not catch.
\<close>

datatype result = Return int | Throw exn

text \<open>
  \<^verbatim>\<open>read_metrics_from_file\<close>: the handlers in their order, then the test for an empty
  set.  The handler of \<^verbatim>\<open>incomplete_file_exception\<close> is empty, so control reaches
  the test with whatever the read left in \<^verbatim>\<open>metrics\<close>.
\<close>

definition read_metrics_from_file :: "exn option \<times> 'r metric_set \<Rightarrow> int \<times> 'r metric_set" where
  "read_metrics_from_file rd =
     (case fst rd of
        Some file_not_found_exception \<Rightarrow> (1, snd rd)
      | Some bad_format_exception \<Rightarrow> (BAD_FORMAT, snd rd)
      | Some std_exception \<Rightarrow> (UNEXPECTED_EXCEPTION, snd rd)
      | _ \<Rightarrow> if length (metrics (snd rd)) = 0 then (EMPTY_INTEROP, snd rd) else (0, snd rd))"

text \<open>
  \<^verbatim>\<open>try { io::write_interop(output, metrics); } catch(const io::bad_format_exception&)
  { return BAD_FORMAT; }\<close>: a completed write is logged; \<^verbatim>\<open>bad_format_exception\<close>
  becomes the exit code; any other exception is not caught.
\<close>

definition write_interop :: "writer \<Rightarrow> category \<Rightarrow> interop_file \<Rightarrow> io_log \<Rightarrow> result option \<times> io_log" where
  "write_interop wr c f s =
     (case wr c f of
        None \<Rightarrow> (None, s\<lparr>writes := writes s @ [(c, f)]\<rparr>)
      | Some bad_format_exception \<Rightarrow> (Some (Return BAD_FORMAT), s)
      | Some e \<Rightarrow> (Some (Throw e), s))"

definition copy_tile_metrics :: "run_folder \<Rightarrow> writer \<Rightarrow> uint \<Rightarrow> io_log \<Rightarrow> result \<times> io_log" where
  "copy_tile_metrics input wr max_read s =
     (let s1 = s\<lparr>reads := reads s @ [tile_metrics]\<rparr>;
          (res, ms) = read_metrics_from_file (tile_interop input)
      in if res \<noteq> 0 then (Return res, s1)
         else (case write_interop wr tile_metrics (TileFile ms) s1 of
                 (Some r, s2) \<Rightarrow> (r, s2)
               | (None, s2) \<Rightarrow>
                   (let metricsOut = filter_by_read ms max_read
                    in (case write_interop wr tile_metrics (TileFile metricsOut) s2 of
                          (Some r, s3) \<Rightarrow> (r, s3)
                        | (None, s3) \<Rightarrow> (Return 0, s3)))))"

definition copy_cycle_metrics ::
    "category \<Rightarrow> run_folder \<Rightarrow> writer \<Rightarrow> uint \<Rightarrow> io_log \<Rightarrow> result \<times> io_log" where
  "copy_cycle_metrics c input wr max_cycle s =
     (let s1 = s\<lparr>reads := reads s @ [c]\<rparr>;
          (res, ms) = read_metrics_from_file (cycle_interop input c)
      in if res \<noteq> 0 then (Return res, s1)
         else (let metricsOut = filter_by_cycle ms max_cycle
               in (case write_interop wr c (CycleFile metricsOut) s1 of
                     (Some r, s2) \<Rightarrow> (r, s2)
                   | (None, s2) \<Rightarrow> (Return 0, s2))))"

definition encode_error :: "int \<Rightarrow> int \<Rightarrow> int" where
  "encode_error res type = res * 100 + type"

text \<open>
  One step of \<^verbatim>\<open>write_interops\<close>, the two lines
  \<^verbatim>\<open>if((res=copy(...)) > 1) return encode_error(res, type); if(res == 0) valid_count++;\<close>:
  \<open>Inl\<close> is the return from \<^verbatim>\<open>write_interops\<close>, \<open>Inr\<close> goes on to the next line
  with the new \<^verbatim>\<open>valid_count\<close>.
\<close>

definition attempt ::
    "(io_log \<Rightarrow> result \<times> io_log) \<Rightarrow> int \<Rightarrow> int \<times> io_log \<Rightarrow> (result \<times> io_log) + (int \<times> io_log)" where
  "attempt copy type st =
     (case copy (snd st) of
        (Throw e, s) \<Rightarrow> Inl (Throw e, s)
      | (Return res, s) \<Rightarrow>
          if res > 1 then Inl (Return (encode_error res type), s)
          else Inr (if res = 0 then fst st + 1 else fst st, s))"

definition write_interops ::
    "run_folder \<Rightarrow> writer \<Rightarrow> uint \<Rightarrow> uint \<Rightarrow> uint \<Rightarrow> result \<times> io_log" where
  "write_interops input wr max_cycle max_read cycle_to_align =
     (case attempt (copy_tile_metrics input wr max_read) 1 (0, start) of
        Inl r \<Rightarrow> r
      | Inr a1 \<Rightarrow>
     (case (if max_cycle > cycle_to_align
            then attempt (copy_cycle_metrics error_metrics input wr max_cycle) 2 a1
            else Inr a1) of
        Inl r \<Rightarrow> r
      | Inr a2 \<Rightarrow>
     (case attempt (copy_cycle_metrics corrected_intensity_metrics input wr max_cycle) 2 a2 of
        Inl r \<Rightarrow> r
      | Inr a3 \<Rightarrow>
     (case attempt (copy_cycle_metrics extraction_metrics input wr max_cycle) 2 a3 of
        Inl r \<Rightarrow> r
      | Inr a4 \<Rightarrow>
     (case attempt (copy_cycle_metrics q_metrics input wr max_cycle) 2 a4 of
        Inl r \<Rightarrow> r
      | Inr a5 \<Rightarrow>
     (case attempt (copy_cycle_metrics image_metrics input wr max_cycle) 2 a5 of
        Inl r \<Rightarrow> r
      | Inr a6 \<Rightarrow>
          if fst a6 = 0 then (Return NO_INTEROPS_FOUND, snd a6)
          else (Return 0, snd a6)))))))"

section \<open>Notions for stating the behaviour of \<^verbatim>\<open>write_interops\<close>\<close>

text \<open>
  What the read of a metric set did in a run folder: the exception it threw, and the
  number of records it left in the set.
\<close>

definition outcome :: "run_folder \<Rightarrow> category \<Rightarrow> exn option" where
  "outcome input c =
     (if c = tile_metrics then fst (tile_interop input) else fst (cycle_interop input c))"

definition records_left :: "run_folder \<Rightarrow> category \<Rightarrow> nat" where
  "records_left input c =
     (if c = tile_metrics then length (metrics (snd (tile_interop input)))
      else length (metrics (snd (cycle_interop input c))))"

text \<open>
  The copy function that \<^verbatim>\<open>write_interops\<close> calls for a metric set, and the second
  argument it gives to \<^verbatim>\<open>encode_error\<close> for it: 1 for tile metrics, 2 for every
  per-cycle metric set.
\<close>

definition copy_metrics ::
    "run_folder \<Rightarrow> writer \<Rightarrow> uint \<Rightarrow> uint \<Rightarrow> category \<Rightarrow> io_log \<Rightarrow> result \<times> io_log" where
  "copy_metrics input wr max_cycle max_read c =
     (if c = tile_metrics then copy_tile_metrics input wr max_read
      else copy_cycle_metrics c input wr max_cycle)"

definition metric_type :: "category \<Rightarrow> int" where
  "metric_type c = (if c = tile_metrics then 1 else 2)"

text \<open>
  The files a copy writes for a metric set when nothing fails, in order: for tile metrics
  the set as read and then the filtered set, for a per-cycle metric set the filtered set.
\<close>

definition outputs :: "run_folder \<Rightarrow> uint \<Rightarrow> uint \<Rightarrow> category \<Rightarrow> interop_file list" where
  "outputs input max_cycle max_read c =
     (if c = tile_metrics
      then [TileFile (snd (tile_interop input)),
            TileFile (filter_by_read (snd (tile_interop input)) max_read)]
      else [CycleFile (filter_by_cycle (snd (cycle_interop input c)) max_cycle)])"

text \<open>
  A read has records when it completed or threw \<^verbatim>\<open>incomplete_file_exception\<close> and left
  at least one record.  A metric set is copied when its read has records and the writer
  accepts its files; it is skipped when its file is not found.
\<close>

definition has_records :: "run_folder \<Rightarrow> category \<Rightarrow> bool" where
  "has_records input c =
     ((outcome input c = None \<or> outcome input c = Some incomplete_file_exception)
      \<and> 0 < records_left input c)"

definition copied :: "run_folder \<Rightarrow> writer \<Rightarrow> uint \<Rightarrow> uint \<Rightarrow> category \<Rightarrow> bool" where
  "copied input wr max_cycle max_read c =
     (has_records input c \<and> list_all (\<lambda>f. wr c f = None) (outputs input max_cycle max_read c))"

definition skipped :: "run_folder \<Rightarrow> category \<Rightarrow> bool" where
  "skipped input c = (outcome input c = Some file_not_found_exception)"

text \<open>
  The steps of \<^verbatim>\<open>write_interops\<close> as a loop over the metric sets it copies, in the
  order of the code.  The function itself is the straight-line definition above; lemma
  \<open>write_interops_run_steps\<close> shows that the two agree.
\<close>

fun run_steps ::
    "run_folder \<Rightarrow> writer \<Rightarrow> uint \<Rightarrow> uint \<Rightarrow> category list \<Rightarrow> int \<times> io_log \<Rightarrow> result \<times> io_log" where
  "run_steps input wr mc mr [] a =
     (if fst a = 0 then (Return NO_INTEROPS_FOUND, snd a) else (Return 0, snd a))"
| "run_steps input wr mc mr (c # cs) a =
     (case attempt (copy_metrics input wr mc mr c) (metric_type c) a of
        Inl r \<Rightarrow> r
      | Inr a' \<Rightarrow> run_steps input wr mc mr cs a')"

definition attempted :: "uint \<Rightarrow> uint \<Rightarrow> category list" where
  "attempted max_cycle cycle_to_align =
     tile_metrics # (if max_cycle > cycle_to_align then [error_metrics] else [])
       @ [corrected_intensity_metrics, extraction_metrics, q_metrics, image_metrics]"

section \<open>The stream codec\<close>

text \<open>
  The reader of the library (\<^verbatim>\<open>io::read_interop\<close>,
  \<^verbatim>\<open>io::read_interop_from_string\<close>) and the record layouts of the metric categories
  are exercised by the tests in src/tests/interop/metrics/metric_streams_test.cpp, but
  their code is not among the sources.  This section models the reader from the
  specification (sections 3, 4.1 to 4.3, 6 and 7 of spec.md).
\<close>

text \<open>Modelled from the spec: the kinds of \<open>BadFormat\<close> named in sections 4.1 and 4.3;
  the library's \<^verbatim>\<open>bad_format_exception\<close> is missing.\<close>

datatype bad_format = UnsupportedVersion | RecordSizeMismatch | Corrupt

text \<open>Modelled from the spec: the error taxonomy of section 7, for the missing reader.\<close>

datatype read_error = FileNotFound | IncompleteFile | BadFormat bad_format

text \<open>Modelled from the spec: the record codec of a metric category (section 4.2), whose
  implementations are missing.  A category has a set of supported versions; it is either
  fixed-size, and then declares its record size in the header and has an expected record
  size for each version, or variable-size (the tile category), and then a record is a
  fixed prefix of \<open>base_size\<close> bytes holding a count, followed by that many sub-entries
  of \<open>sub_entry_size\<close> bytes (\<open>sub_entry_count\<close> reads the count from the prefix and is
  \<open>None\<close> when the count is inconsistent).  The category-specific header fields are
  kept as the \<open>extra_header_size\<close> raw bytes that follow the fixed part of the header.
  \<open>decode\<close> and \<open>encode\<close> convert one record.\<close>

record 'r codec =
  supported_version :: "byte \<Rightarrow> bool"
  fixed_size :: bool
  expected_record_size :: "byte \<Rightarrow> nat"
  extra_header_size :: "byte \<Rightarrow> nat"
  base_size :: "byte \<Rightarrow> nat"
  sub_entry_size :: "byte \<Rightarrow> nat"
  sub_entry_count :: "byte \<Rightarrow> byte list \<Rightarrow> nat option"
  decode :: "byte \<Rightarrow> byte list \<Rightarrow> 'r"
  encode :: "byte \<Rightarrow> 'r \<Rightarrow> byte list"

text \<open>Modelled from the spec: the \<open>FormatHeader\<close> of section 3, for the missing header
  parser.\<close>

record format_header =
  header_version :: byte
  declared_record_size :: "nat option"
  extra_fields :: "byte list"

text \<open>Modelled from the spec: the 2-byte unsigned little-endian field of sections 4.1 and
  4.2, read from its two bytes; the library's field reader is missing.\<close>

definition read_u16 :: "byte \<Rightarrow> byte \<Rightarrow> nat" where
  "read_u16 b0 b1 = unat b0 + 256 * unat b1"

text \<open>Modelled from the spec: the same field written, low byte first, for the missing
  record codecs.\<close>

definition write_u16 :: "nat \<Rightarrow> byte list" where
  "write_u16 n = [of_nat (n mod 256), of_nat (n div 256 mod 256)]"

text \<open>Modelled from the spec: the category-specific extra header fields of the missing
  header parser, "parsed immediately after and subject to the same truncation rule"
  (section 4.1).\<close>

definition parse_extra ::
    "'r codec \<Rightarrow> byte \<Rightarrow> nat option \<Rightarrow> byte list \<Rightarrow> read_error + (format_header \<times> byte list)" where
  "parse_extra c v declared bs =
     (if length bs < extra_header_size c v then Inl IncompleteFile
      else Inr (\<lparr>header_version = v, declared_record_size = declared,
                 extra_fields = take (extra_header_size c v) bs\<rparr>,
                drop (extra_header_size c v) bs))"

text \<open>Modelled from the spec: the missing header parser, section 4.1.  The version is
  read first and checked against the supported set; a fixed-size category then reads the
  declared record size and compares it with the expected size; bytes running out before
  the header is read in full give \<open>IncompleteFile\<close>.  The result is the header and the
  bytes after it.\<close>

definition parse_header :: "'r codec \<Rightarrow> byte list \<Rightarrow> read_error + (format_header \<times> byte list)" where
  "parse_header c bs =
     (case bs of
        [] \<Rightarrow> Inl IncompleteFile
      | v # bs1 \<Rightarrow>
          if \<not> supported_version c v then Inl (BadFormat UnsupportedVersion)
          else if fixed_size c then
            (case bs1 of
               b0 # b1 # bs2 \<Rightarrow>
                 if read_u16 b0 b1 \<noteq> expected_record_size c v
                 then Inl (BadFormat RecordSizeMismatch)
                 else parse_extra c v (Some (read_u16 b0 b1)) bs2
             | _ \<Rightarrow> Inl IncompleteFile)
          else parse_extra c v None bs1)"

text \<open>Modelled from the spec: "decode \<open>L / S\<close> records in order" (section 4.3, step 3)
  of the missing reader: \<open>k\<close> records of \<open>S\<close> bytes each.\<close>

fun decode_records :: "'r codec \<Rightarrow> byte \<Rightarrow> nat \<Rightarrow> nat \<Rightarrow> byte list \<Rightarrow> 'r list" where
  "decode_records c v S 0 bs = []"
| "decode_records c v S (Suc k) bs = decode c v (take S bs) # decode_records c v S k (drop S bs)"

text \<open>Modelled from the spec: the missing reader on the bytes after the header of a
  fixed-size category (section 4.3, steps 2 and 3): no bytes give the empty set, a length
  that is not a multiple of the record size gives \<open>IncompleteFile\<close>.  The specification
  does not say what a record size of 0 means; bytes that cannot be split into records of
  size 0 are reported as incomplete here, as the remainder test would in HOL.\<close>

definition read_fixed :: "'r codec \<Rightarrow> byte \<Rightarrow> byte list \<Rightarrow> read_error + 'r list" where
  "read_fixed c v bs =
     (let L = length bs; S = expected_record_size c v
      in if L = 0 then Inr []
         else if S = 0 \<or> L mod S \<noteq> 0 then Inl IncompleteFile
         else Inr (decode_records c v S (L div S) bs))"

text \<open>Modelled from the spec: the missing reader on the bytes after the header of the
  variable-size category (section 4.3, steps 4 and 5).  It stops when no bytes remain
  after a record; fewer bytes than the fixed prefix, or than the count implies, give
  \<open>IncompleteFile\<close>; an inconsistent count, or a record of no bytes at all, gives
  \<open>BadFormat Corrupt\<close>.\<close>

function read_variable :: "'r codec \<Rightarrow> byte \<Rightarrow> byte list \<Rightarrow> read_error + 'r list" where
  "read_variable c v bs =
     (if bs = [] then Inr []
      else if length bs < base_size c v then Inl IncompleteFile
      else case sub_entry_count c v (take (base_size c v) bs) of
             None \<Rightarrow> Inl (BadFormat Corrupt)
           | Some n \<Rightarrow>
               if base_size c v + n * sub_entry_size c v = 0 then Inl (BadFormat Corrupt)
               else if length bs < base_size c v + n * sub_entry_size c v then Inl IncompleteFile
               else case read_variable c v (drop (base_size c v + n * sub_entry_size c v) bs) of
                      Inl e \<Rightarrow> Inl e
                    | Inr rs \<Rightarrow> Inr (decode c v (take (base_size c v + n * sub_entry_size c v) bs) # rs))"
  by pat_completeness auto
termination
  by (relation "measure (\<lambda>(c, v, bs). length bs)") auto

declare read_variable.simps [simp del]

text \<open>Modelled from the spec: the missing stream reader, \<open>read\<close> of section 4.3, on the
  bytes of a source that could be opened: the header, then the records, all or nothing.\<close>

definition read_interop_from_string :: "'r codec \<Rightarrow> byte list \<Rightarrow> read_error + 'r metric_set" where
  "read_interop_from_string c bs =
     (case parse_header c bs of
        Inl e \<Rightarrow> Inl e
      | Inr (h, body) \<Rightarrow>
          (case (if fixed_size c then read_fixed c (header_version h) body
                 else read_variable c (header_version h) body) of
             Inl e \<Rightarrow> Inl e
           | Inr rs \<Rightarrow> Inr \<lparr>metrics = rs, version = header_version h,
                            header_extra = extra_fields h\<rparr>))"

text \<open>Modelled from the spec: the length of the header in the file layout of section 6,
  \<^verbatim>\<open>[version:1][declared_record_size:2]?[extra_header_fields]?\<close>.\<close>

definition header_len :: "'r codec \<Rightarrow> byte \<Rightarrow> nat" where
  "header_len c v = 1 + (if fixed_size c then 2 else 0) + extra_header_size c v"

section \<open>Example data\<close>

text \<open>Metric sets, run folders and writers on which the theorems below are instantiated.\<close>

definition no_records :: "'r metric_set" where
  "no_records = \<lparr>metrics = [], version = 2, header_extra = []\<rparr>"

definition three_cycles :: "cycle_metric metric_set" where
  "three_cycles =
     \<lparr>metrics = [\<lparr>lane = 1, tile = 1101, cycle = 1, cycle_values = [10]\<rparr>,
                 \<lparr>lane = 1, tile = 1101, cycle = 30, cycle_values = [20]\<rparr>,
                 \<lparr>lane = 1, tile = 1101, cycle = 26, cycle_values = [30]\<rparr>],
      version = 2, header_extra = []\<rparr>"

definition two_tiles :: "tile_metric metric_set" where
  "two_tiles =
     \<lparr>metrics = [\<lparr>lane = 1, tile = 1101, tile_values = [7],
                  read_metrics = [\<lparr>read = 1, read_values = [11]\<rparr>,
                                  \<lparr>read = 2, read_values = [12]\<rparr>,
                                  \<lparr>read = 3, read_values = [13]\<rparr>]\<rparr>,
                 \<lparr>lane = 1, tile = 1102, tile_values = [8],
                  read_metrics = [\<lparr>read = 1, read_values = [21]\<rparr>,
                                  \<lparr>read = 2, read_values = [22]\<rparr>,
                                  \<lparr>read = 3, read_values = [23]\<rparr>]\<rparr>],
      version = 2, header_extra = []\<rparr>"

definition accept_all :: writer where
  "accept_all c f = None"

text \<open>A writer that refuses a tile file in which some tile has no read entries.\<close>

definition needs_reads :: writer where
  "needs_reads c f =
     (case f of
        TileFile ms \<Rightarrow>
          if list_ex (\<lambda>t. read_metrics t = []) (metrics ms) then Some bad_format_exception
          else None
      | CycleFile ms \<Rightarrow> None)"

text \<open>A run folder with every file present and complete.\<close>

definition folder_complete :: run_folder where
  "folder_complete =
     \<lparr>tile_interop = (None, two_tiles), cycle_interop = (\<lambda>c. (None, three_cycles))\<rparr>"

text \<open>
  Run folders that hold an extraction file, complete, and a tile file only.  In the first
  the read of the tile file throws \<^verbatim>\<open>incomplete_file_exception\<close> before any record is
  read; in the second the tile file is missing.
\<close>

definition folder_incomplete_tile :: run_folder where
  "folder_incomplete_tile =
     \<lparr>tile_interop = (Some incomplete_file_exception, no_records),
      cycle_interop = (\<lambda>c. if c = extraction_metrics then (None, three_cycles)
                           else (Some file_not_found_exception, no_records))\<rparr>"

definition folder_missing_tile :: run_folder where
  "folder_missing_tile =
     \<lparr>tile_interop = (Some file_not_found_exception, no_records),
      cycle_interop = (\<lambda>c. if c = extraction_metrics then (None, three_cycles)
                           else (Some file_not_found_exception, no_records))\<rparr>"

text \<open>
  A run folder with every file present and complete, in which the corrected-intensity
  file holds a header and no record.
\<close>

definition folder_empty_corrected :: run_folder where
  "folder_empty_corrected =
     \<lparr>tile_interop = (None, two_tiles),
      cycle_interop = (\<lambda>c. if c = corrected_intensity_metrics then (None, no_records)
                           else (None, three_cycles))\<rparr>"

text \<open>
  A fixed-size codec for the examples: version 1, no extra header fields, records of six
  bytes holding lane, tile and cycle as 16-bit little-endian numbers.
\<close>

definition key_codec :: "cycle_metric codec" where
  "key_codec =
     \<lparr>supported_version = (\<lambda>v. v = 1), fixed_size = True,
      expected_record_size = (\<lambda>v. 6), extra_header_size = (\<lambda>v. 0),
      base_size = (\<lambda>v. 0), sub_entry_size = (\<lambda>v. 0), sub_entry_count = (\<lambda>v b. None),
      decode = (\<lambda>v b. case b of
                  [l0, l1, t0, t1, c0, c1] \<Rightarrow>
                    \<lparr>lane = of_nat (read_u16 l0 l1), tile = of_nat (read_u16 t0 t1),
                     cycle = of_nat (read_u16 c0 c1), cycle_values = []\<rparr>
                | _ \<Rightarrow> \<lparr>lane = 0, tile = 0, cycle = 0, cycle_values = []\<rparr>),
      encode = (\<lambda>v r. write_u16 (unat (lane r)) @ write_u16 (unat (tile r))
                        @ write_u16 (unat (cycle r)))\<rparr>"

text \<open>The bytes of a file of \<open>key_codec\<close> with two records.\<close>

definition key_file :: "byte list" where
  "key_file = [1, 6, 0,  1, 0, 77, 4, 1, 0,  1, 0, 77, 4, 30, 0]"

section \<open>The filters\<close>

lemma cycle_subset_acc:
  "cycle_subset max_cycle ms acc = acc @ filter (\<lambda>m. cycle m \<le> max_cycle) ms"
  by (induction ms arbitrary: acc) (simp_all add: not_less)

lemma read_subset_acc:
  "read_subset max_read rs acc = acc @ filter (\<lambda>r. read r \<le> max_read) rs"
  by (induction rs arbitrary: acc) (simp_all add: not_less)

lemma tile_subset_acc:
  "tile_subset max_read ts acc =
     acc @ map (\<lambda>t. t\<lparr>read_metrics := filter (\<lambda>r. read r \<le> max_read) (read_metrics t)\<rparr>) ts"
  by (induction ts arbitrary: acc) (simp_all add: read_subset_acc)

text \<open>
  C4.  The metric set that \<^verbatim>\<open>copy_cycle_metrics\<close> builds holds exactly the records of
  the input whose cycle is at most \<^verbatim>\<open>max_cycle\<close>, in their original order; version and
  header metadata are those of the input.  The filter is a total function of its
  arguments: it has no failing branch and returns a new set.
\<close>

theorem filter_by_cycle_correct:
  "metrics (filter_by_cycle ms max_cycle) = filter (\<lambda>m. cycle m \<le> max_cycle) (metrics ms)
   \<and> version (filter_by_cycle ms max_cycle) = version ms
   \<and> header_extra (filter_by_cycle ms max_cycle) = header_extra ms"
  by (simp add: filter_by_cycle_def cycle_subset_acc)

text \<open>
  C5.  The tile metric set that \<^verbatim>\<open>copy_tile_metrics\<close> builds has one tile for every
  tile of the input, in order; each keeps its lane, tile number and tile-level values, and
  its read entries are exactly those of the input tile whose read number is at most
  \<^verbatim>\<open>max_read\<close>, in order.  A tile whose entries are all above the bound is kept with
  no entries.
\<close>

theorem filter_by_read_correct:
  "metrics (filter_by_read ms max_read) =
     map (\<lambda>t. t\<lparr>read_metrics := filter (\<lambda>r. read r \<le> max_read) (read_metrics t)\<rparr>) (metrics ms)
   \<and> length (metrics (filter_by_read ms max_read)) = length (metrics ms)
   \<and> map lane (metrics (filter_by_read ms max_read)) = map lane (metrics ms)
   \<and> map tile (metrics (filter_by_read ms max_read)) = map tile (metrics ms)
   \<and> map tile_values (metrics (filter_by_read ms max_read)) = map tile_values (metrics ms)
   \<and> version (filter_by_read ms max_read) = version ms
   \<and> header_extra (filter_by_read ms max_read) = header_extra ms"
  by (simp add: filter_by_read_def tile_subset_acc comp_def)

section \<open>The orchestration\<close>

lemma write_interops_run_steps:
  "write_interops input wr mc mr cta = run_steps input wr mc mr (attempted mc cta) (0, start)"
  by (simp add: write_interops_def attempted_def copy_metrics_def metric_type_def split: sum.splits)

lemma step_skipped:
  "skipped input c \<Longrightarrow>
   attempt (copy_metrics input wr mc mr c) (metric_type c) (vc, s) = Inr (vc, s\<lparr>reads := reads s @ [c]\<rparr>)"
  by (auto simp: skipped_def outcome_def attempt_def copy_metrics_def copy_tile_metrics_def copy_cycle_metrics_def
      read_metrics_from_file_def Let_def split: if_splits)

lemma step_copied:
  "copied input wr mc mr c \<Longrightarrow>
   attempt (copy_metrics input wr mc mr c) (metric_type c) (vc, s) =
     Inr (vc + 1, s\<lparr>reads := reads s @ [c], writes := writes s @ map (Pair c) (outputs input mc mr c)\<rparr>)"
  by (auto simp: copied_def has_records_def outcome_def records_left_def outputs_def attempt_def copy_metrics_def copy_tile_metrics_def copy_cycle_metrics_def
      read_metrics_from_file_def write_interop_def Let_def split: if_splits)


lemmas step_defs = outcome_def records_left_def outputs_def attempt_def copy_metrics_def
  copy_tile_metrics_def copy_cycle_metrics_def read_metrics_from_file_def write_interop_def
  metric_type_def encode_error_def

lemma step_empty:
  "outcome input c = None \<or> outcome input c = Some incomplete_file_exception \<Longrightarrow>
   records_left input c = 0 \<Longrightarrow>
   attempt (copy_metrics input wr mc mr c) (metric_type c) (vc, s) =
     Inl (Return (encode_error EMPTY_INTEROP (metric_type c)), s\<lparr>reads := reads s @ [c]\<rparr>)"
  by (auto simp: step_defs EMPTY_INTEROP_def Let_def split: if_splits)

lemma step_Inr:
  assumes "attempt (copy_metrics input wr mc mr c) (metric_type c) (vc, s) = Inr a'"
  shows "(skipped input c \<and> \<not> copied input wr mc mr c \<and> a' = (vc, s\<lparr>reads := reads s @ [c]\<rparr>))
       \<or> (copied input wr mc mr c \<and> \<not> skipped input c \<and>
          a' = (vc + 1, s\<lparr>reads := reads s @ [c],
                          writes := writes s @ map (Pair c) (outputs input mc mr c)\<rparr>))"
proof (cases "skipped input c")
  case True
  then have "\<not> copied input wr mc mr c"
    by (simp add: skipped_def copied_def has_records_def)
  with True assms show ?thesis by (simp add: step_skipped)
next
  case False
  show ?thesis
  proof (cases "copied input wr mc mr c")
    case True
    with False assms show ?thesis by (simp add: step_copied)
  next
    case nc: False
    from False nc assms have False
      by (auto simp: skipped_def copied_def has_records_def step_defs
          BAD_FORMAT_def EMPTY_INTEROP_def UNEXPECTED_EXCEPTION_def Let_def
          split: if_splits option.splits exn.splits)
    then show ?thesis ..
  qed
qed

lemma step_Inl:
  assumes "attempt (copy_metrics input wr mc mr c) (metric_type c) (vc, s) = Inl (r, s')"
  shows "\<not> skipped input c \<and> \<not> copied input wr mc mr c
       \<and> r \<noteq> Return 0 \<and> r \<noteq> Return NO_INTEROPS_FOUND
       \<and> reads s' = reads s @ [c]
       \<and> (writes s' = writes s \<or>
          (c = tile_metrics \<and> has_records input c \<and>
           writes s' = writes s @ [(c, TileFile (snd (tile_interop input)))]))"
proof -
  have 1: "\<not> skipped input c" using assms by (auto simp: step_skipped)
  have 2: "\<not> copied input wr mc mr c" using assms by (auto simp: step_copied)
  have 3: "r \<noteq> Return 0 \<and> r \<noteq> Return NO_INTEROPS_FOUND" 
    using assms by (auto simp: attempt_def encode_error_def metric_type_def NO_INTEROPS_FOUND_def split: prod.splits result.splits if_splits)
  have 4: "reads s' = reads s @ [c] \<and> (writes s' = writes s \<or>
          (c = tile_metrics \<and> has_records input c \<and>
           writes s' = writes s @ [(c, TileFile (snd (tile_interop input)))]))"
    using assms
    by (auto simp: step_defs has_records_def Let_def
          BAD_FORMAT_def EMPTY_INTEROP_def UNEXPECTED_EXCEPTION_def 
          split: if_splits option.splits exn.splits)
  from 1 2 3 4 show ?thesis by blast
qed


lemma run_steps_reads:
  "\<exists>k. k \<le> length cs \<and> (cs \<noteq> [] \<longrightarrow> 0 < k)
       \<and> reads (snd (run_steps input wr mc mr cs a)) = reads (snd a) @ take k cs"
proof (induction cs arbitrary: a)
  case Nil
  then show ?case by simp
next
  case (Cons c cs)
  obtain vc s where a: "a = (vc, s)" by (cases a)
  show ?case
  proof (cases "attempt (copy_metrics input wr mc mr c) (metric_type c) a")
    case (Inl rs)
    obtain r s' where rs: "rs = (r, s')" by (cases rs)
    from Inl rs a have "reads s' = reads s @ [c]" by (auto dest: step_Inl)
    with Inl rs a have "reads (snd (run_steps input wr mc mr (c # cs) a)) = reads (snd a) @ take 1 (c # cs)"
      by simp
    then show ?thesis by (intro exI[of _ 1]) simp
  next
    case (Inr a')
    with a have ra: "reads (snd a') = reads s @ [c]" by (auto dest: step_Inr)
    from Cons.IH[of a'] obtain k where k: "k \<le> length cs"
      "reads (snd (run_steps input wr mc mr cs a')) = reads (snd a') @ take k cs" by blast
    with Inr ra a have "reads (snd (run_steps input wr mc mr (c # cs) a)) = reads (snd a) @ take (Suc k) (c # cs)"
      by simp
    with k(1) show ?thesis by (intro exI[of _ "Suc k"]) simp
  qed
qed

lemma run_steps_passed:
  "list_all (\<lambda>c. skipped input c \<or> copied input wr mc mr c) pre \<Longrightarrow>
   \<exists>vc' s'. run_steps input wr mc mr (pre @ rest) (vc, s) = run_steps input wr mc mr rest (vc', s')
      \<and> reads s' = reads s @ pre"
proof (induction pre arbitrary: vc s)
  case Nil
  show ?case by (intro exI[of _ vc] exI[of _ s]) simp
next
  case (Cons c pre)
  from Cons.prems have rest: "list_all (\<lambda>c. skipped input c \<or> copied input wr mc mr c) pre"
    and c: "skipped input c \<or> copied input wr mc mr c" by simp_all
  show ?case
  proof (cases "skipped input c")
    case True
    let ?s1 = "s\<lparr>reads := reads s @ [c]\<rparr>"
    from True have "run_steps input wr mc mr ((c # pre) @ rest) (vc, s) =
        run_steps input wr mc mr (pre @ rest) (vc, ?s1)"
      by (simp add: step_skipped)
    with Cons.IH[OF rest, of vc ?s1] show ?thesis by auto
  next
    case False
    with c have cp: "copied input wr mc mr c" by simp
    let ?s1 = "s\<lparr>reads := reads s @ [c],
                 writes := writes s @ map (Pair c) (outputs input mc mr c)\<rparr>"
    from cp have "run_steps input wr mc mr ((c # pre) @ rest) (vc, s) =
        run_steps input wr mc mr (pre @ rest) (vc + 1, ?s1)"
      by (simp add: step_copied)
    with Cons.IH[OF rest, of "vc + 1" ?s1] show ?thesis by auto
  qed
qed

lemma run_steps_writes:
  "\<exists>ws. writes (snd (run_steps input wr mc mr cs a)) = writes (snd a) @ ws
      \<and> list_all (\<lambda>w. fst w \<in> set cs \<and> has_records input (fst w)
                       \<and> snd w \<in> set (outputs input mc mr (fst w))) ws"
proof (induction cs arbitrary: a)
  case Nil
  then show ?case by simp
next
  case (Cons c cs)
  obtain vc s where a: "a = (vc, s)" by (cases a)
  let ?ok = "\<lambda>cs w. fst w \<in> set cs \<and> has_records input (fst w)
                       \<and> snd w \<in> set (outputs input mc mr (fst w))"
  have mono: "list_all (?ok cs) ws \<Longrightarrow> list_all (?ok (c # cs)) ws" for ws
    by (induction ws) auto
  show ?case
  proof (cases "attempt (copy_metrics input wr mc mr c) (metric_type c) a")
    case (Inl rs)
    obtain r s' where rs: "rs = (r, s')" by (cases rs)
    from Inl rs a have "writes s' = writes s \<or>
          (c = tile_metrics \<and> has_records input c \<and>
           writes s' = writes s @ [(c, TileFile (snd (tile_interop input)))])"
      using step_Inl[of input wr mc mr c vc s r s'] by simp
    then have "\<exists>ws. writes s' = writes s @ ws \<and> list_all (?ok (c # cs)) ws"
      by (auto simp: outputs_def)
    with Inl rs a show ?thesis by simp
  next
    case (Inr a')
    with a have "writes (snd a') = writes s \<or>
       (copied input wr mc mr c \<and> writes (snd a') = writes s @ map (Pair c) (outputs input mc mr c))"
      by (auto dest: step_Inr)
    then obtain w1 where w1: "writes (snd a') = writes s @ w1" "list_all (?ok (c # cs)) w1"
      by (auto simp: copied_def list_all_iff)
    from Cons.IH[of a'] obtain w2 where w2:
      "writes (snd (run_steps input wr mc mr cs a')) = writes (snd a') @ w2" "list_all (?ok cs) w2"
      by blast
    from w1 w2 mono[of w2] Inr a
    have "writes (snd (run_steps input wr mc mr (c # cs) a)) = writes (snd a) @ (w1 @ w2)
        \<and> list_all (?ok (c # cs)) (w1 @ w2)"
      by simp
    then show ?thesis by blast
  qed
qed

lemma run_steps_completed:
  "(fst (run_steps input wr mc mr cs a) = Return 0 \<or>
    fst (run_steps input wr mc mr cs a) = Return NO_INTEROPS_FOUND)
   = list_all (\<lambda>c. skipped input c \<or> copied input wr mc mr c) cs"
proof (induction cs arbitrary: a)
  case Nil
  then show ?case by simp
next
  case (Cons c cs)
  obtain vc s where a: "a = (vc, s)" by (cases a)
  show ?case
  proof (cases "attempt (copy_metrics input wr mc mr c) (metric_type c) a")
    case (Inl rs)
    obtain r s' where rs: "rs = (r, s')" by (cases rs)
    from Inl rs a have "\<not> skipped input c \<and> \<not> copied input wr mc mr c
       \<and> r \<noteq> Return 0 \<and> r \<noteq> Return NO_INTEROPS_FOUND"
      using step_Inl[of input wr mc mr c vc s r s'] by simp
    with Inl rs show ?thesis by simp
  next
    case (Inr a')
    with a have "skipped input c \<or> copied input wr mc mr c" by (auto dest: step_Inr)
    with Inr Cons.IH[of a'] show ?thesis by simp
  qed
qed

lemma run_steps_all:
  "list_all (\<lambda>c. skipped input c \<or> copied input wr mc mr c) cs \<Longrightarrow>
   0 \<le> fst a \<Longrightarrow> (fst a = 0) = (writes (snd a) = []) \<Longrightarrow>
   reads (snd (run_steps input wr mc mr cs a)) = reads (snd a) @ cs
   \<and> (fst (run_steps input wr mc mr cs a) = Return NO_INTEROPS_FOUND)
       = (writes (snd (run_steps input wr mc mr cs a)) = [])"
proof (induction cs arbitrary: a)
  case Nil
  then show ?case by (simp add: NO_INTEROPS_FOUND_def)
next
  case (Cons c cs)
  obtain vc s where a: "a = (vc, s)" by (cases a)
  from Cons.prems(1) have sc: "skipped input c \<or> copied input wr mc mr c" by simp
  show ?case
  proof (cases "skipped input c")
    case True
    let ?a' = "(vc, s\<lparr>reads := reads s @ [c]\<rparr>)"
    from True a have st: "attempt (copy_metrics input wr mc mr c) (metric_type c) a = Inr ?a'"
      by (simp add: step_skipped)
    from Cons.IH[of ?a'] Cons.prems a st show ?thesis by simp
  next
    case False
    with sc have cp: "copied input wr mc mr c" by simp
    let ?a' = "(vc + 1, s\<lparr>reads := reads s @ [c],
                          writes := writes s @ map (Pair c) (outputs input mc mr c)\<rparr>)"
    from cp a have st: "attempt (copy_metrics input wr mc mr c) (metric_type c) a = Inr ?a'"
      by (simp add: step_copied)
    have ne: "outputs input mc mr c \<noteq> []" by (simp add: outputs_def)
    from Cons.IH[of ?a'] Cons.prems a st ne show ?thesis by simp
  qed
qed


lemma final_file_None: "(\<And>f. (c, f) \<notin> set (writes s)) \<Longrightarrow> final_file s c = None"
  unfolding final_file_def by (simp only: map_of_eq_None_iff) force

text \<open>
  C8 (amended).  The read of the tile metrics is always attempted.  The read of the error
  metrics is attempted only if \<^verbatim>\<open>max_cycle > cycle_to_align\<close>.  When no metric set
  stops the operation (it returns 0 or \<^verbatim>\<open>NO_INTEROPS_FOUND\<close>), the reads of the
  corrected-intensity, extraction, quality and image metrics are attempted whatever the
  bounds, that of the error metrics if \<^verbatim>\<open>max_cycle > cycle_to_align\<close>, and the
  operation returns \<^verbatim>\<open>NO_INTEROPS_FOUND\<close> exactly when nothing was written.
\<close>

theorem write_interops_attempts:
  assumes "write_interops input wr max_cycle max_read cycle_to_align = (r, s)"
  shows "tile_metrics \<in> set (reads s)
       \<and> (error_metrics \<in> set (reads s) \<longrightarrow> cycle_to_align < max_cycle)
       \<and> (r = Return 0 \<or> r = Return NO_INTEROPS_FOUND \<longrightarrow>
            (cycle_to_align < max_cycle \<longrightarrow> error_metrics \<in> set (reads s))
            \<and> corrected_intensity_metrics \<in> set (reads s)
            \<and> extraction_metrics \<in> set (reads s)
            \<and> q_metrics \<in> set (reads s)
            \<and> image_metrics \<in> set (reads s)
            \<and> ((r = Return NO_INTEROPS_FOUND) = (writes s = [])))"
proof -
  let ?cs = "attempted max_cycle cycle_to_align"
  let ?run = "run_steps input wr max_cycle max_read ?cs (0, start)"
  from assms(1) have run: "?run = (r, s)" by (simp add: write_interops_run_steps)
  from run_steps_reads[of ?cs input wr max_cycle max_read "(0, start)"] run
  obtain k where k: "0 < k" "reads s = take k ?cs"
    by (auto simp: start_def attempted_def)
  then obtain k' where "k = Suc k'" by (cases k) auto
  with k(2) have 1: "tile_metrics \<in> set (reads s)" by (simp add: attempted_def)
  have 2: "error_metrics \<in> set (reads s) \<longrightarrow> cycle_to_align < max_cycle"
  proof
    assume "error_metrics \<in> set (reads s)"
    with k(2) have "error_metrics \<in> set ?cs" by (auto dest: in_set_takeD)
    then show "cycle_to_align < max_cycle" by (auto simp: attempted_def split: if_splits)
  qed
  have 3: "r = Return 0 \<or> r = Return NO_INTEROPS_FOUND \<longrightarrow>
            (cycle_to_align < max_cycle \<longrightarrow> error_metrics \<in> set (reads s))
            \<and> corrected_intensity_metrics \<in> set (reads s)
            \<and> extraction_metrics \<in> set (reads s)
            \<and> q_metrics \<in> set (reads s)
            \<and> image_metrics \<in> set (reads s)
            \<and> ((r = Return NO_INTEROPS_FOUND) = (writes s = []))"
  proof
    assume "r = Return 0 \<or> r = Return NO_INTEROPS_FOUND"
    with run have all: "list_all (\<lambda>c. skipped input c \<or> copied input wr max_cycle max_read c) ?cs"
      using run_steps_completed[of input wr max_cycle max_read ?cs "(0, start)"] by simp
    from run_steps_all[OF all, of "(0, start)"] run
    have "reads s = ?cs" "(r = Return NO_INTEROPS_FOUND) = (writes s = [])"
      by (simp_all add: start_def)
    then show "(cycle_to_align < max_cycle \<longrightarrow> error_metrics \<in> set (reads s))
            \<and> corrected_intensity_metrics \<in> set (reads s)
            \<and> extraction_metrics \<in> set (reads s)
            \<and> q_metrics \<in> set (reads s)
            \<and> image_metrics \<in> set (reads s)
            \<and> ((r = Return NO_INTEROPS_FOUND) = (writes s = []))"
      by (simp add: attempted_def)
  qed
  from 1 2 3 show ?thesis by blast
qed

text \<open>
  C9.  \<^verbatim>\<open>write_interops\<close> copies the metric sets in the order \<open>attempted\<close>: tile,
  error (if \<^verbatim>\<open>max_cycle > cycle_to_align\<close>), corrected intensity, extraction, quality,
  image.  Let \<open>c\<close> be one of them, and let every metric set before it in this order be
  skipped (its file is not found) or copied.  If the read of \<open>c\<close> leaves no record, be it
  that the read completed (a file with a header and no records) or that it threw
  \<^verbatim>\<open>incomplete_file_exception\<close> before any record, then
  \<^verbatim>\<open>read_metrics_from_file\<close> returns \<^verbatim>\<open>EMPTY_INTEROP\<close> for it, the file of \<open>c\<close>
  is the last one read, and the whole operation returns \<^verbatim>\<open>EMPTY_INTEROP\<close> encoded with
  the type of \<open>c\<close>, which is neither success nor \<^verbatim>\<open>NO_INTEROPS_FOUND\<close>, the result
  when every file is missing; no file is written for \<open>c\<close>.
\<close>

theorem empty_interop_is_fatal:
  assumes "attempted max_cycle cycle_to_align = pre @ c # post"
    and "list_all (\<lambda>c'. skipped input c' \<or> copied input wr max_cycle max_read c') pre"
    and "outcome input c = None \<or> outcome input c = Some incomplete_file_exception"
    and "records_left input c = 0"
  shows "(if c = tile_metrics
          then fst (read_metrics_from_file (tile_interop input)) = EMPTY_INTEROP
          else fst (read_metrics_from_file (cycle_interop input c)) = EMPTY_INTEROP)
       \<and> fst (write_interops input wr max_cycle max_read cycle_to_align) =
           Return (encode_error EMPTY_INTEROP (metric_type c))
       \<and> fst (write_interops input wr max_cycle max_read cycle_to_align) \<noteq> Return 0
       \<and> fst (write_interops input wr max_cycle max_read cycle_to_align) \<noteq> Return NO_INTEROPS_FOUND
       \<and> reads (snd (write_interops input wr max_cycle max_read cycle_to_align)) = pre @ [c]
       \<and> final_file (snd (write_interops input wr max_cycle max_read cycle_to_align)) c = None"
proof -
  let ?w = "write_interops input wr max_cycle max_read cycle_to_align"
  from assms(3,4) have 1: "if c = tile_metrics
          then fst (read_metrics_from_file (tile_interop input)) = EMPTY_INTEROP
          else fst (read_metrics_from_file (cycle_interop input c)) = EMPTY_INTEROP"
    by (auto simp: outcome_def records_left_def read_metrics_from_file_def split: if_splits)
  from run_steps_passed[OF assms(2), of "c # post" 0 start]
  obtain vc' s' where
    pre: "run_steps input wr max_cycle max_read (pre @ c # post) (0, start) =
          run_steps input wr max_cycle max_read (c # post) (vc', s')"
    and rd: "reads s' = pre"
    by (auto simp: start_def)
  from step_empty[OF assms(3,4), of wr max_cycle max_read vc' s']
  have "run_steps input wr max_cycle max_read (c # post) (vc', s') =
      (Return (encode_error EMPTY_INTEROP (metric_type c)), s'\<lparr>reads := reads s' @ [c]\<rparr>)"
    by simp
  with pre assms(1)
  have w: "?w = (Return (encode_error EMPTY_INTEROP (metric_type c)), s'\<lparr>reads := reads s' @ [c]\<rparr>)"
    by (simp add: write_interops_run_steps)
  then have 2: "fst ?w = Return (encode_error EMPTY_INTEROP (metric_type c))" by simp
  then have 3: "fst ?w \<noteq> Return 0 \<and> fst ?w \<noteq> Return NO_INTEROPS_FOUND"
    by (simp add: encode_error_def EMPTY_INTEROP_def NO_INTEROPS_FOUND_def metric_type_def)
  from w rd have 4: "reads (snd ?w) = pre @ [c]" by simp
  from run_steps_writes[of input wr max_cycle max_read
      "attempted max_cycle cycle_to_align" "(0, start)"]
  have "(c, f) \<in> set (writes (snd ?w)) \<Longrightarrow> has_records input c" for f
    by (auto simp: write_interops_run_steps start_def list_all_iff)
  with assms(4) have 5: "final_file (snd ?w) c = None"
    by (auto simp: has_records_def intro!: final_file_None)
  from 1 2 3 4 5 show ?thesis by blast
qed

text \<open>
  C10.  When \<^verbatim>\<open>copy_tile_metrics\<close> returns 0, it has written two files for the tile
  metrics, first the set as read and then the filtered set, so the tile file of the
  output folder holds the filtered set.  When the first write completes and the second
  fails, the function does not return 0 and the tile file of the output folder holds the
  set as read, unfiltered.
\<close>

theorem copy_tile_metrics_writes_twice:
  "(copy_tile_metrics input wr max_read s = (Return 0, s') \<longrightarrow>
      writes s' = writes s @ [(tile_metrics, TileFile (snd (tile_interop input))),
                              (tile_metrics, TileFile (filter_by_read (snd (tile_interop input)) max_read))]
      \<and> final_file s' tile_metrics = Some (TileFile (filter_by_read (snd (tile_interop input)) max_read)))
   \<and> (fst (read_metrics_from_file (tile_interop input)) = 0
       \<and> wr tile_metrics (TileFile (snd (tile_interop input))) = None
       \<and> wr tile_metrics (TileFile (filter_by_read (snd (tile_interop input)) max_read)) \<noteq> None \<longrightarrow>
      fst (copy_tile_metrics input wr max_read s) \<noteq> Return 0
      \<and> writes (snd (copy_tile_metrics input wr max_read s)) =
          writes s @ [(tile_metrics, TileFile (snd (tile_interop input)))]
      \<and> final_file (snd (copy_tile_metrics input wr max_read s)) tile_metrics =
          Some (TileFile (snd (tile_interop input))))"
  by (auto simp: copy_tile_metrics_def write_interop_def read_metrics_from_file_def final_file_def
        BAD_FORMAT_def EMPTY_INTEROP_def UNEXPECTED_EXCEPTION_def Let_def
      split: if_splits option.splits exn.splits prod.splits)

section \<open>The stream codec: truncation and header validation\<close>

lemma read_from_string_fixed:
  assumes "fixed_size c" and "supported_version c v"
    and "read_u16 b0 b1 = expected_record_size c v"
  shows "read_interop_from_string c (v # b0 # b1 # rest) =
     (if length rest < extra_header_size c v then Inl IncompleteFile
      else case read_fixed c v (drop (extra_header_size c v) rest) of
             Inl e \<Rightarrow> Inl e
           | Inr rs \<Rightarrow> Inr \<lparr>metrics = rs, version = v,
                            header_extra = take (extra_header_size c v) rest\<rparr>)"
  using assms by (simp add: read_interop_from_string_def parse_header_def parse_extra_def split: sum.splits)

lemma read_from_string_fixed_Inr:
  assumes "fixed_size c" and "read_interop_from_string c bs = Inr ms"
  obtains b0 b1 rest where "bs = version ms # b0 # b1 # rest"
    and "supported_version c (version ms)"
    and "read_u16 b0 b1 = expected_record_size c (version ms)"
    and "extra_header_size c (version ms) \<le> length rest"
    and "length rest = extra_header_size c (version ms) \<or>
         (expected_record_size c (version ms) \<noteq> 0 \<and>
          (length rest - extra_header_size c (version ms)) mod expected_record_size c (version ms) = 0)"
proof -
  from assms(2) obtain h body rs where
    hd: "parse_header c bs = Inr (h, body)"
    and rd: "(if fixed_size c then read_fixed c (header_version h) body
              else read_variable c (header_version h) body) = Inr rs"
    and ms: "ms = \<lparr>metrics = rs, version = header_version h, header_extra = extra_fields h\<rparr>"
    by (auto simp: read_interop_from_string_def split: sum.splits prod.splits)
  from hd assms(1) obtain b0 b1 rest where
    bs: "bs = header_version h # b0 # b1 # rest"
    and sup: "supported_version c (header_version h)"
    and sz: "read_u16 b0 b1 = expected_record_size c (header_version h)"
    and ex: "extra_header_size c (header_version h) \<le> length rest"
    and body: "body = drop (extra_header_size c (header_version h)) rest"
    by (auto simp: parse_header_def parse_extra_def split: list.splits if_splits)
  from rd assms(1) body ex
  have "length rest = extra_header_size c (header_version h) \<or>
         (expected_record_size c (header_version h) \<noteq> 0 \<and>
          (length rest - extra_header_size c (header_version h)) mod expected_record_size c (header_version h) = 0)"
    by (auto simp: read_fixed_def Let_def split: if_splits)
  with bs sup sz ex ms that show thesis by simp
qed

lemma read_fixed_partial:
  "bs \<noteq> [] \<Longrightarrow> length bs mod expected_record_size c v \<noteq> 0 \<Longrightarrow>
   read_fixed c v bs = Inl IncompleteFile"
  by (simp add: read_fixed_def)

lemma short_header_incomplete:
  assumes "fixed_size c" and "supported_version c v"
    and "read_u16 b0 b1 = expected_record_size c v"
    and "i < 3 + extra_header_size c v"
  shows "read_interop_from_string c (take i (v # b0 # b1 # rest)) = Inl IncompleteFile"
proof -
  have "i = 0 \<or> i = 1 \<or> i = 2 \<or> (\<exists>j. i = 3 + j \<and> j < extra_header_size c v)"
    using assms(4) by presburger
  then consider "i = 0" | "i = 1" | "i = 2" | j where "i = 3 + j" "j < extra_header_size c v"
    by blast
  then show ?thesis
  proof cases
    case 1
    then show ?thesis by (simp add: read_interop_from_string_def parse_header_def)
  next
    case 2
    with assms(1,2) show ?thesis by (simp add: read_interop_from_string_def parse_header_def)
  next
    case 3
    with assms(1,2) show ?thesis
      by (simp add: read_interop_from_string_def parse_header_def numeral_2_eq_2)
  next
    case 4
    then have "take i (v # b0 # b1 # rest) = v # b0 # b1 # take j rest"
      by (simp add: numeral_3_eq_3)
    moreover from 4(2) have "length (take j rest) < extra_header_size c v" by simp
    ultimately show ?thesis
      using read_from_string_fixed[OF assms(1-3), of "take j rest"] by (simp only: if_True)
  qed
qed


lemma partial_record_mod:
  fixes S :: nat
  assumes "0 < m" "m < S" "0 < L" "L mod S = 0"
  shows "m < L \<and> (L - m) mod S \<noteq> 0"
proof -
  from assms(4) have "S dvd L" by (simp add: mod_eq_0_iff_dvd)
  then obtain q where q: "L = S * q" by (auto simp: dvd_def)
  with assms(3) have "q \<noteq> 0" by auto
  then obtain k where "q = Suc k" by (cases q) auto
  with q have k: "L = S * Suc k" by simp
  with assms(1,2) have lt: "m < L" by (simp add: trans_less_add1)
  from k assms(1,2) have "L - m = (S - m) + S * k" by simp
  then have "(L - m) mod S = (S - m) mod S" by simp
  with assms(1,2) have "(L - m) mod S \<noteq> 0" by simp
  with lt show ?thesis ..
qed

text \<open>
  C2.  Let a file of a fixed-size category be read successfully.  Reading its first \<open>i\<close>
  bytes fails with \<open>IncompleteFile\<close> when \<open>i\<close> is beyond the header, short of the whole
  file and the bytes after the header are not a whole number of records; it also fails
  (with \<open>IncompleteFile\<close>) when \<open>i\<close> is less than the length of the header; and so does
  reading the file without its last \<open>m\<close> bytes, for \<open>m\<close> between 1 and the record size
  less one.
\<close>

theorem truncated_file_is_incomplete:
  assumes "fixed_size c" and "read_interop_from_string c bs = Inr ms"
  shows "(\<forall>i. header_len c (version ms) < i \<and> i < length bs
              \<and> (i - header_len c (version ms)) mod expected_record_size c (version ms) \<noteq> 0
            \<longrightarrow> read_interop_from_string c (take i bs) = Inl IncompleteFile)
       \<and> (\<forall>i. i < header_len c (version ms) \<longrightarrow> read_interop_from_string c (take i bs) = Inl IncompleteFile)
       \<and> (\<forall>m. 0 < m \<and> m < expected_record_size c (version ms)
            \<longrightarrow> read_interop_from_string c (take (length bs - m) bs) = Inl IncompleteFile)"
proof -
  let ?v = "version ms"
  let ?S = "expected_record_size c ?v"
  let ?E = "extra_header_size c ?v"
  from assms obtain b0 b1 rest where bs: "bs = ?v # b0 # b1 # rest"
    and sup: "supported_version c ?v"
    and sz: "read_u16 b0 b1 = ?S"
    and ex: "?E \<le> length rest"
    and whole: "length rest = ?E \<or> (?S \<noteq> 0 \<and> (length rest - ?E) mod ?S = 0)"
    by (rule read_from_string_fixed_Inr)
  from assms(1) have hl: "header_len c ?v = 3 + ?E" by (simp add: header_len_def)
  have part: "read_interop_from_string c (take i bs) = Inl IncompleteFile"
    if "header_len c ?v < i" "i < length bs" "(i - header_len c ?v) mod ?S \<noteq> 0" for i
  proof -
    from that(1) hl have "\<exists>j. i = 3 + j \<and> ?E < j" by presburger
    then obtain j where j: "i = 3 + j" "?E < j" by blast
    with that(2) bs have jl: "j < length rest" by simp
    from j bs have tk: "take i bs = ?v # b0 # b1 # take j rest" by (simp add: numeral_3_eq_3)
    from j jl have ne: "drop ?E (take j rest) \<noteq> []" by simp
    from j jl hl that(3) have "length (drop ?E (take j rest)) mod ?S \<noteq> 0" by simp
    with ne have "read_fixed c ?v (drop ?E (take j rest)) = Inl IncompleteFile"
      by (rule read_fixed_partial)
    with j jl tk read_from_string_fixed[OF assms(1) sup sz, of "take j rest"] show ?thesis by simp
  qed
  have short: "read_interop_from_string c (take i bs) = Inl IncompleteFile" if "i < header_len c ?v" for i
    using short_header_incomplete[OF assms(1) sup sz, of i rest] that hl bs by simp
  have last: "read_interop_from_string c (take (length bs - m) bs) = Inl IncompleteFile"
    if "0 < m" "m < ?S" for m
  proof (cases "length rest = ?E")
    case True
    with bs hl that(1) have "length bs - m < header_len c ?v" by simp
    then show ?thesis by (rule short)
  next
    case False
    with whole ex have L: "0 < length rest - ?E" "(length rest - ?E) mod ?S = 0" by simp_all
    from partial_record_mod[OF that L]
    have "m < length rest - ?E" "(length rest - ?E - m) mod ?S \<noteq> 0" by simp_all
    note m = this
    from bs have lb: "length bs = 3 + length rest" by simp
    from m(1) lb hl have eq: "length bs - m - header_len c ?v = length rest - ?E - m" by arith
    from m(1) lb hl have "header_len c ?v < length bs - m" by arith
    moreover from that(1) lb have "length bs - m < length bs" by arith
    moreover from eq m(2) have "(length bs - m - header_len c ?v) mod ?S \<noteq> 0" by simp
    ultimately show ?thesis by (rule part)
  qed
  from part short last show ?thesis by blast
qed

text \<open>
  C6.  A byte stream whose first byte is not a supported version of the category is
  refused by the header parser, and so by the reader, with
  \<open>BadFormat UnsupportedVersion\<close>.
\<close>

theorem unsupported_version_is_bad_format:
  assumes "\<not> supported_version c v"
  shows "parse_header c (v # bs) = Inl (BadFormat UnsupportedVersion)
       \<and> read_interop_from_string c (v # bs) = Inl (BadFormat UnsupportedVersion)"
  using assms by (simp add: read_interop_from_string_def parse_header_def)

text \<open>
  C7.  For a category that declares its record size (a fixed-size one) and a supported
  version, a declared record size that differs from the expected one is refused with
  \<open>BadFormat RecordSizeMismatch\<close>, whatever bytes follow.
\<close>

theorem record_size_mismatch_is_bad_format:
  assumes "fixed_size c" and "supported_version c v"
    and "read_u16 b0 b1 \<noteq> expected_record_size c v"
  shows "parse_header c (v # b0 # b1 # bs) = Inl (BadFormat RecordSizeMismatch)
       \<and> read_interop_from_string c (v # b0 # b1 # bs) = Inl (BadFormat RecordSizeMismatch)"
  using assms by (simp add: read_interop_from_string_def parse_header_def)


section \<open>The theorems on the example data\<close>

text \<open>
  Each theorem above with a hypothesis is applied here to the example data, where its
  hypotheses hold by evaluation.
\<close>

lemmas run_defs = write_interops_def attempt_def copy_tile_metrics_def copy_cycle_metrics_def
  read_metrics_from_file_def write_interop_def encode_error_def start_def
  BAD_FORMAT_def EMPTY_INTEROP_def UNEXPECTED_EXCEPTION_def NO_INTEROPS_FOUND_def

theorem filter_by_cycle_correct_witness:
  "metrics (filter_by_cycle three_cycles 26) =
     [\<lparr>lane = 1, tile = 1101, cycle = 1, cycle_values = [10]\<rparr>,
      \<lparr>lane = 1, tile = 1101, cycle = 26, cycle_values = [30]\<rparr>]
   \<and> version (filter_by_cycle three_cycles 26) = 2"
  using filter_by_cycle_correct[of three_cycles 26] by (simp add: three_cycles_def)

theorem filter_by_read_correct_witness:
  "metrics (filter_by_read two_tiles 1) =
     [\<lparr>lane = 1, tile = 1101, tile_values = [7], read_metrics = [\<lparr>read = 1, read_values = [11]\<rparr>]\<rparr>,
      \<lparr>lane = 1, tile = 1102, tile_values = [8], read_metrics = [\<lparr>read = 1, read_values = [21]\<rparr>]\<rparr>]
   \<and> map read_metrics (metrics (filter_by_read two_tiles 0)) = [[], []]"
  using filter_by_read_correct[of two_tiles 1] filter_by_read_correct[of two_tiles 0]
  by (simp add: two_tiles_def word_le_nat_alt)

text \<open>
  C3.  The claim is that a read that fails with \<open>FileNotFound\<close> or with
  \<open>IncompleteFile\<close> is skipped silently and is not fatal to the whole operation, as the
  comment at the head of cyclesim.cpp has it ("A missing InterOp file will be silently
  ignored.  Incomplete InterOp files are also ignored").  Here is what the code does on two
  run folders that hold a complete extraction file.  In \<open>folder_incomplete_tile\<close> the
  read of the tile file throws \<^verbatim>\<open>incomplete_file_exception\<close> and leaves no record: the
  operation stops at the tile metrics with \<^verbatim>\<open>EMPTY_INTEROP\<close> (501), the extraction
  file is never read and nothing is written.  In \<open>folder_missing_tile\<close> the tile file is
  missing: the tile metrics are skipped, the extraction file is filtered and written and
  the operation returns 0.
\<close>

theorem incomplete_tile_file_stops_copy:
  "write_interops folder_incomplete_tile accept_all 30 1 25 =
     (Return 501, \<lparr>reads = [tile_metrics], writes = []\<rparr>)
   \<and> write_interops folder_missing_tile accept_all 30 1 25 =
     (Return 0,
      \<lparr>reads = [tile_metrics, error_metrics, corrected_intensity_metrics, extraction_metrics,
                 q_metrics, image_metrics],
       writes = [(extraction_metrics, CycleFile (filter_by_cycle three_cycles 30))]\<rparr>)"
  by (simp add: run_defs folder_incomplete_tile_def folder_missing_tile_def no_records_def
      accept_all_def three_cycles_def)

text \<open>
  C8 as stated fails: with \<^verbatim>\<open>max_cycle = cycle_to_align = 25\<close> and every file present
  and complete, the operation succeeds and the error metrics are never read.
\<close>

theorem error_metrics_gate_counterexample:
  "fst (write_interops folder_complete accept_all 25 1 25) = Return 0
   \<and> error_metrics \<notin> set (reads (snd (write_interops folder_complete accept_all 25 1 25)))"
  by (simp add: run_defs folder_complete_def accept_all_def three_cycles_def two_tiles_def)

theorem write_interops_attempts_witness:
  "fst (write_interops folder_complete accept_all 26 1 25) = Return 0
   \<and> set (reads (snd (write_interops folder_complete accept_all 26 1 25))) =
       {tile_metrics, error_metrics, corrected_intensity_metrics, extraction_metrics,
        q_metrics, image_metrics}
   \<and> writes (snd (write_interops folder_complete accept_all 26 1 25)) \<noteq> []"
proof -
  obtain r s where run: "write_interops folder_complete accept_all 26 1 25 = (r, s)"
    by (cases "write_interops folder_complete accept_all 26 1 25")
  have r: "fst (write_interops folder_complete accept_all 26 1 25) = Return 0"
    by (simp add: run_defs folder_complete_def accept_all_def three_cycles_def two_tiles_def)
  with run have r0: "r = Return 0" by simp
  have sub: "set (reads s) \<subseteq> {tile_metrics, error_metrics, corrected_intensity_metrics,
      extraction_metrics, q_metrics, image_metrics}"
    using run
    by (auto simp: run_defs folder_complete_def accept_all_def three_cycles_def two_tiles_def)
  have gate: "(25::uint) < 26" by simp
  from write_interops_attempts[OF run] r0 gate sub
  have "set (reads s) = {tile_metrics, error_metrics, corrected_intensity_metrics,
      extraction_metrics, q_metrics, image_metrics} \<and> writes s \<noteq> []"
    by (auto simp: NO_INTEROPS_FOUND_def)
  with run r show ?thesis by simp
qed

theorem empty_interop_is_fatal_witness:
  "attempted 26 25 =
     [tile_metrics, error_metrics] @ corrected_intensity_metrics
       # [extraction_metrics, q_metrics, image_metrics]
   \<and> copied folder_empty_corrected accept_all 26 1 tile_metrics
   \<and> copied folder_empty_corrected accept_all 26 1 error_metrics
   \<and> outcome folder_empty_corrected corrected_intensity_metrics = None
   \<and> records_left folder_empty_corrected corrected_intensity_metrics = 0
   \<and> fst (write_interops folder_empty_corrected accept_all 26 1 25) = Return 502
   \<and> reads (snd (write_interops folder_empty_corrected accept_all 26 1 25)) =
       [tile_metrics, error_metrics, corrected_intensity_metrics]
   \<and> final_file (snd (write_interops folder_empty_corrected accept_all 26 1 25))
         corrected_intensity_metrics = None
   \<and> outcome folder_incomplete_tile tile_metrics = Some incomplete_file_exception
   \<and> records_left folder_incomplete_tile tile_metrics = 0
   \<and> fst (write_interops folder_incomplete_tile accept_all 30 1 25) = Return 501
   \<and> reads (snd (write_interops folder_incomplete_tile accept_all 30 1 25)) = [tile_metrics]"
proof -
  have ord: "attempted 26 25 =
     [tile_metrics, error_metrics] @ corrected_intensity_metrics
       # [extraction_metrics, q_metrics, image_metrics]"
    by (simp add: attempted_def)
  have cp: "copied folder_empty_corrected accept_all 26 1 tile_metrics"
    "copied folder_empty_corrected accept_all 26 1 error_metrics"
    by (simp_all add: copied_def has_records_def outcome_def records_left_def outputs_def
        folder_empty_corrected_def accept_all_def three_cycles_def two_tiles_def)
  then have pre: "list_all (\<lambda>c'. skipped folder_empty_corrected c'
        \<or> copied folder_empty_corrected accept_all 26 1 c') [tile_metrics, error_metrics]"
    by simp
  have out: "outcome folder_empty_corrected corrected_intensity_metrics = None"
    by (simp add: outcome_def folder_empty_corrected_def)
  then have out': "outcome folder_empty_corrected corrected_intensity_metrics = None \<or>
      outcome folder_empty_corrected corrected_intensity_metrics = Some incomplete_file_exception" ..
  have left: "records_left folder_empty_corrected corrected_intensity_metrics = 0"
    by (simp add: records_left_def folder_empty_corrected_def no_records_def)
  have code: "encode_error EMPTY_INTEROP (metric_type corrected_intensity_metrics) = 502"
    "encode_error EMPTY_INTEROP (metric_type tile_metrics) = 501"
    by (simp_all add: encode_error_def EMPTY_INTEROP_def metric_type_def)
  have ord2: "attempted 30 25 = [] @ tile_metrics
      # [error_metrics, corrected_intensity_metrics, extraction_metrics, q_metrics, image_metrics]"
    by (simp add: attempted_def)
  have out2: "outcome folder_incomplete_tile tile_metrics = Some incomplete_file_exception"
    by (simp add: outcome_def folder_incomplete_tile_def)
  then have out2': "outcome folder_incomplete_tile tile_metrics = None \<or>
      outcome folder_incomplete_tile tile_metrics = Some incomplete_file_exception" ..
  have left2: "records_left folder_incomplete_tile tile_metrics = 0"
    by (simp add: records_left_def folder_incomplete_tile_def no_records_def)
  have pre2: "list_all (\<lambda>c'. skipped folder_incomplete_tile c'
        \<or> copied folder_incomplete_tile accept_all 30 1 c') []"
    by simp
  from empty_interop_is_fatal[OF ord pre out' left]
    empty_interop_is_fatal[OF ord2 pre2 out2' left2]
    ord cp out left out2 left2 code
  show ?thesis by simp
qed

theorem copy_tile_metrics_writes_twice_witness:
  "copy_tile_metrics folder_complete accept_all 1 start =
     (Return 0, \<lparr>reads = [tile_metrics],
                 writes = [(tile_metrics, TileFile two_tiles),
                           (tile_metrics, TileFile (filter_by_read two_tiles 1))]\<rparr>)
   \<and> final_file \<lparr>reads = [tile_metrics],
                 writes = [(tile_metrics, TileFile two_tiles),
                           (tile_metrics, TileFile (filter_by_read two_tiles 1))]\<rparr> tile_metrics =
       Some (TileFile (filter_by_read two_tiles 1))
   \<and> needs_reads tile_metrics (TileFile two_tiles) = None
   \<and> needs_reads tile_metrics (TileFile (filter_by_read two_tiles 0)) = Some bad_format_exception
   \<and> fst (copy_tile_metrics folder_complete needs_reads 0 start) \<noteq> Return 0
   \<and> final_file (snd (copy_tile_metrics folder_complete needs_reads 0 start)) tile_metrics =
       Some (TileFile two_tiles)"
proof -
  let ?s = "\<lparr>reads = [tile_metrics],
              writes = [(tile_metrics, TileFile two_tiles),
                        (tile_metrics, TileFile (filter_by_read two_tiles 1))]\<rparr>"
  have ok: "copy_tile_metrics folder_complete accept_all 1 start = (Return 0, ?s)"
    by (simp add: run_defs folder_complete_def accept_all_def two_tiles_def)
  have rd: "fst (read_metrics_from_file (tile_interop folder_complete)) = 0"
    by (simp add: read_metrics_from_file_def folder_complete_def two_tiles_def)
  have w1: "needs_reads tile_metrics (TileFile (snd (tile_interop folder_complete))) = None"
    by (simp add: needs_reads_def folder_complete_def two_tiles_def)
  have w2: "needs_reads tile_metrics
      (TileFile (filter_by_read (snd (tile_interop folder_complete)) 0)) = Some bad_format_exception"
    by (simp add: needs_reads_def folder_complete_def two_tiles_def filter_by_read_def
        tile_subset_acc word_le_nat_alt)
  from copy_tile_metrics_writes_twice[of folder_complete accept_all 1 start ?s] ok
  have f1: "final_file ?s tile_metrics = Some (TileFile (filter_by_read two_tiles 1))"
    by (simp add: folder_complete_def)
  from copy_tile_metrics_writes_twice[of folder_complete needs_reads 0 start ?s] rd w1 w2
  have f2: "fst (copy_tile_metrics folder_complete needs_reads 0 start) \<noteq> Return 0
     \<and> final_file (snd (copy_tile_metrics folder_complete needs_reads 0 start)) tile_metrics =
       Some (TileFile two_tiles)"
    by (simp add: folder_complete_def)
  from ok f1 w1 w2 f2 show ?thesis by (simp add: folder_complete_def)
qed


lemma parse_key_file:
  "parse_header key_codec key_file =
     Inr (\<lparr>header_version = 1, declared_record_size = Some 6, extra_fields = []\<rparr>,
          drop 3 key_file)"
  by (simp add: parse_header_def parse_extra_def key_codec_def key_file_def read_u16_def)

lemma read_fixed_key_file:
  "read_fixed key_codec 1 (drop 3 key_file) =
     Inr (decode_records key_codec 1 6 2 (drop 3 key_file))"
  by (simp add: read_fixed_def key_codec_def key_file_def)

lemma decode_records_key_file:
  "decode_records key_codec 1 6 2 (drop 3 key_file) =
     [decode key_codec 1 [1, 0, 77, 4, 1, 0], decode key_codec 1 [1, 0, 77, 4, 30, 0]]"
  by (simp add: key_file_def numeral_2_eq_2)

lemma decode_key_records:
  "decode key_codec 1 [1, 0, 77, 4, 1, 0] = \<lparr>lane = 1, tile = 1101, cycle = 1, cycle_values = []\<rparr>"
  "decode key_codec 1 [1, 0, 77, 4, 30, 0] = \<lparr>lane = 1, tile = 1101, cycle = 30, cycle_values = []\<rparr>"
  by (simp_all add: key_codec_def read_u16_def)

lemma read_key_file:
  "read_interop_from_string key_codec key_file =
     Inr \<lparr>metrics = [\<lparr>lane = 1, tile = 1101, cycle = 1, cycle_values = []\<rparr>,
                     \<lparr>lane = 1, tile = 1101, cycle = 30, cycle_values = []\<rparr>],
          version = 1, header_extra = []\<rparr>"
proof -
  have "fixed_size key_codec" by (simp add: key_codec_def)
  then show ?thesis
    by (simp add: read_interop_from_string_def parse_key_file read_fixed_key_file
        decode_records_key_file decode_key_records)
qed

theorem truncated_file_is_incomplete_witness:
  "fixed_size key_codec
   \<and> header_len key_codec 1 = 3 \<and> length key_file = 15 \<and> expected_record_size key_codec 1 = 6
   \<and> read_interop_from_string key_codec (take 5 key_file) = Inl IncompleteFile
   \<and> read_interop_from_string key_codec (take 13 key_file) = Inl IncompleteFile
   \<and> read_interop_from_string key_codec (take 2 key_file) = Inl IncompleteFile
   \<and> read_interop_from_string key_codec (take (length key_file - 4) key_file) = Inl IncompleteFile"
proof -
  have fx: "fixed_size key_codec" by (simp add: key_codec_def)
  have hl: "header_len key_codec 1 = 3" by (simp add: header_len_def key_codec_def)
  have len: "length key_file = 15" by (simp add: key_file_def)
  have sz: "expected_record_size key_codec 1 = 6" by (simp add: key_codec_def)
  note t = truncated_file_is_incomplete[OF fx read_key_file, simplified, unfolded hl len sz]
  from t have 1: "read_interop_from_string key_codec (take 5 key_file) = Inl IncompleteFile"
    by simp
  from t have 2: "read_interop_from_string key_codec (take 13 key_file) = Inl IncompleteFile"
    by simp
  from t have 3: "read_interop_from_string key_codec (take 2 key_file) = Inl IncompleteFile"
    by simp
  from t have "read_interop_from_string key_codec (take (15 - 4) key_file) = Inl IncompleteFile"
    by simp
  with len have 4: "read_interop_from_string key_codec (take (length key_file - 4) key_file) =
      Inl IncompleteFile" by simp
  from fx hl len sz 1 2 3 4 show ?thesis by simp
qed

theorem unsupported_version_is_bad_format_witness:
  "\<not> supported_version key_codec 34
   \<and> read_interop_from_string key_codec (34 # tl key_file) = Inl (BadFormat UnsupportedVersion)"
proof -
  have h: "\<not> supported_version key_codec 34" by (simp add: key_codec_def)
  from unsupported_version_is_bad_format[OF h, of "tl key_file"] h show ?thesis by simp
qed

theorem record_size_mismatch_is_bad_format_witness:
  "fixed_size key_codec \<and> supported_version key_codec 1
   \<and> read_u16 0 0 \<noteq> expected_record_size key_codec 1
   \<and> read_interop_from_string key_codec (1 # 0 # 0 # drop 3 key_file) =
       Inl (BadFormat RecordSizeMismatch)"
proof -
  have fx: "fixed_size key_codec" by (simp add: key_codec_def)
  have sv: "supported_version key_codec 1" by (simp add: key_codec_def)
  have ne: "read_u16 0 0 \<noteq> expected_record_size key_codec 1"
    by (simp add: key_codec_def read_u16_def)
  from record_size_mismatch_is_bad_format[OF fx sv ne, of "drop 3 key_file"] fx sv ne
  show ?thesis by simp
qed


end
